theory Spec2Isabelle
  imports Main "HOL-Library.Word"
begin

unbundle bit_operations_syntax

section \<open>Background task scheduler (main/background\_task.cc)\<close>

text \<open>
  The class has three pieces of shared state, all guarded by \<open>mutex_\<close>: the queue
  \<open>main_tasks_\<close>, the counter \<open>active_tasks_\<close> (a \<open>std::atomic<size_t>\<close>, 32 bits wide on
  the ESP32, so it is a \<open>32 word\<close> here and \<open>++\<close>/\<open>--\<close> wrap) and the condition variable.
  A callback is opaque to the scheduler, so it is represented by an identity of an
  arbitrary type \<open>'a\<close>; running it is recorded in the history \<open>executed\<close>.

  The worker thread of \<open>BackgroundTaskLoop\<close> is at one of three control points:
  \<^item> \<open>AtWait\<close>: in \<open>condition_variable_.wait\<close> at the top of the loop, holding no list;
  \<^item> \<open>AtTask cb tasks\<close>: inside the \<open>for\<close> loop over its local list, about to call the
    wrapper of \<open>cb\<close>; \<open>tasks\<close> are the items after it;
  \<^item> \<open>AtCompletion cb tasks\<close>: inside the wrapper, \<open>cb()\<close> has returned and the wrapper
    is about to take the mutex and decrement \<open>active_tasks_\<close>.
\<close>

datatype 'a worker = AtWait | AtTask 'a "'a list" | AtCompletion 'a "'a list"

text \<open>
  The last three fields are history variables, never read by the code: \<open>batches\<close> counts
  the queue swaps of the worker, \<open>scheduled\<close> lists the \<open>Schedule\<close> calls with the value
  of \<open>batches\<close> at the call, and \<open>executed\<close> lists the callbacks run with the number of the
  batch they ran in. \<open>warnings\<close> holds the \<open>ESP_LOGW\<close> lines as the pair printed.
\<close>

record 'a background_task =
  main_tasks :: "'a list"
  active_tasks :: "32 word"
  worker :: "'a worker"
  warnings :: "(32 word \<times> int) list"
  batches :: nat
  scheduled :: "('a \<times> nat) list"
  executed :: "('a \<times> nat) list"

text \<open>The constructor: an empty queue, a zero counter and a worker that starts its loop.\<close>

definition BackgroundTask :: "'a background_task" where
  "BackgroundTask =
     \<lparr>main_tasks = [], active_tasks = 0, worker = AtWait, warnings = [],
      batches = 0, scheduled = [], executed = []\<rparr>"

text \<open>
  \<open>Schedule\<close> runs wholly under the mutex. \<open>free_size\<close> is what
  \<open>heap_caps_get_free_size(MALLOC_CAP_INTERNAL)\<close> returns (a \<open>size_t\<close>); the code stores it
  in an \<open>int\<close>, hence \<open>sint\<close>. The comparison \<open>active_tasks_ >= 30\<close> is unsigned and reads
  the counter before it is incremented.
\<close>

definition Schedule :: "'a \<Rightarrow> 32 word \<Rightarrow> 'a background_task \<Rightarrow> 'a background_task" where
  "Schedule callback free_size s =
     (let free_sram = sint free_size;
          s1 = (if 30 \<le> active_tasks s \<and> free_sram < 10000
                then s\<lparr>warnings := warnings s @ [(active_tasks s, free_sram)]\<rparr>
                else s)
      in s1\<lparr>active_tasks := active_tasks s1 + 1,
             main_tasks := main_tasks s1 @ [callback],
             scheduled := scheduled s1 @ [(callback, batches s1)]\<rparr>)"

text \<open>
  One atomic step of the worker. At the wait it either stays blocked (empty queue) or
  moves the whole queue into its local list and releases the lock (the move constructor of
  \<open>std::list\<close> takes every node and leaves \<open>main_tasks_\<close> empty); at a task it runs the
  callback; at a completion it takes the lock, decrements the counter and goes on to the
  next item of its local list, or back to the wait when the list is exhausted.
\<close>

definition BackgroundTaskLoop_step :: "'a background_task \<Rightarrow> 'a background_task" where
  "BackgroundTaskLoop_step s =
     (case worker s of
        AtWait \<Rightarrow>
          (case main_tasks s of
             [] \<Rightarrow> s
           | task # tasks \<Rightarrow>
               s\<lparr>worker := AtTask task tasks, main_tasks := [], batches := Suc (batches s)\<rparr>)
      | AtTask cb tasks \<Rightarrow>
          s\<lparr>worker := AtCompletion cb tasks, executed := executed s @ [(cb, batches s)]\<rparr>
      | AtCompletion cb tasks \<Rightarrow>
          s\<lparr>active_tasks := active_tasks s - 1,
            worker := (case tasks of [] \<Rightarrow> AtWait | task # tasks' \<Rightarrow> AtTask task tasks')\<rparr>)"

definition worker_blocked :: "'a background_task \<Rightarrow> bool" where
  "worker_blocked s \<longleftrightarrow> worker s = AtWait \<and> main_tasks s = []"

text \<open>The predicate \<open>WaitForCompletion\<close> waits for.\<close>

definition all_done :: "'a background_task \<Rightarrow> bool" where
  "all_done s \<longleftrightarrow> main_tasks s = [] \<and> active_tasks s = 0"

text \<open>
  \<open>WaitForCompletion\<close> with nothing scheduled during the wait: the caller sleeps on the
  condition variable while only the worker makes steps, and returns in the first state
  that satisfies the predicate (every state change that can make it true is followed by
  \<open>notify_all\<close> under the same lock). The result is the state at the return; \<open>None\<close> means
  the call never returns, which is what happens when the predicate is false and the worker
  is blocked.
\<close>

partial_function (option) WaitForCompletion ::
  "'a background_task \<Rightarrow> 'a background_task option" where
  "WaitForCompletion s =
     (if all_done s then Some s
      else if worker_blocked s then None
      else WaitForCompletion (BackgroundTaskLoop_step s))"

text \<open>
  Histories of the scheduler: any interleaving of \<open>Schedule\<close> calls (from any thread, also
  from inside a running callback, which holds no lock) with steps of the worker.
\<close>

datatype 'a event = Call_Schedule 'a "32 word" | Worker_step

fun run :: "'a event list \<Rightarrow> 'a background_task \<Rightarrow> 'a background_task" where
  "run [] s = s"
| "run (Call_Schedule cb free_size # es) s = run es (Schedule cb free_size s)"
| "run (Worker_step # es) s = run es (BackgroundTaskLoop_step s)"

text \<open>The worker's local list, and the part of it whose callbacks have not run yet.\<close>

fun local_tasks :: "'a worker \<Rightarrow> 'a list" where
  "local_tasks AtWait = []"
| "local_tasks (AtTask cb tasks) = cb # tasks"
| "local_tasks (AtCompletion cb tasks) = cb # tasks"

fun not_yet_run :: "'a worker \<Rightarrow> 'a list" where
  "not_yet_run AtWait = []"
| "not_yet_run (AtTask cb tasks) = cb # tasks"
| "not_yet_run (AtCompletion cb tasks) = tasks"

text \<open>All wrappers that exist: each is a node of one of the two lists.\<close>

definition pending :: "'a background_task \<Rightarrow> 'a list" where
  "pending s = local_tasks (worker s) @ main_tasks s"

definition work_left :: "'a background_task \<Rightarrow> nat" where
  "work_left s =
     4 * length (main_tasks s) +
     (case worker s of
        AtWait \<Rightarrow> 0
      | AtTask cb tasks \<Rightarrow> 2 * length tasks + 2
      | AtCompletion cb tasks \<Rightarrow> 2 * length tasks + 1)"

definition bg_inv :: "'a background_task \<Rightarrow> bool" where
  "bg_inv s \<longleftrightarrow>
     map fst (scheduled s) = map fst (executed s) @ not_yet_run (worker s) @ main_tasks s \<and>
     active_tasks s = of_nat (length (local_tasks (worker s)) + length (main_tasks s)) \<and>
     (\<forall>i < length (executed s) + length (not_yet_run (worker s)).
        snd (scheduled s ! i) < batches s) \<and>
     (\<forall>i < length (scheduled s). snd (scheduled s ! i) \<le> batches s) \<and>
     (\<forall>i < length (executed s).
        snd (scheduled s ! i) < snd (executed s ! i) \<and> snd (executed s ! i) \<le> batches s)"

text \<open>A history used to evaluate the model: the third callback is scheduled while the
  first batch is being executed.\<close>

definition burst :: "nat event list" where
  "burst =
     [Call_Schedule 1 50000, Call_Schedule 2 50000, Worker_step, Worker_step,
      Call_Schedule 3 50000, Worker_step, Worker_step, Worker_step, Worker_step, Worker_step]"

text \<open>Thirty callbacks scheduled while the worker makes no step.\<close>

definition thirty_queued :: "nat background_task" where
  "thirty_queued = run (replicate 30 (Call_Schedule 0 50000)) BackgroundTask"

section \<open>Persistent settings (main/settings.cc)\<close>

text \<open>
  \<open>Settings\<close> wraps the non-volatile storage library of ESP-IDF, and \<open>AudioCodec::Start\<close>
  below also enables the I2S channels through ESP-IDF. That library is not part of this
  repository, so its entry points are parameters of the model: a record of functions over
  an arbitrary type \<open>'w\<close> of everything outside the program (flash contents, handle table,
  peripherals). Every theorem below holds for every such record. An entry point with an
  out-parameter returns the value it leaves there: \<open>nvs_open\<close> the value of
  \<open>nvs_handle_\<close> after the call, \<open>nvs_get_i32\<close> the value read.
\<close>

type_synonym esp_err_t = int

definition ESP_OK :: esp_err_t where
  "ESP_OK = 0"

definition ESP_ERR_NVS_NOT_FOUND :: esp_err_t where
  "ESP_ERR_NVS_NOT_FOUND = 0x1102"

datatype nvs_open_mode_t = NVS_READONLY | NVS_READWRITE

record 'w esp_idf =
  nvs_open :: "string \<Rightarrow> nvs_open_mode_t \<Rightarrow> 'w \<Rightarrow> 32 word \<times> 'w"
  nvs_get_i32 :: "32 word \<Rightarrow> string \<Rightarrow> 'w \<Rightarrow> esp_err_t \<times> int"
  nvs_set_str :: "32 word \<Rightarrow> string \<Rightarrow> string \<Rightarrow> 'w \<Rightarrow> esp_err_t \<times> 'w"
  nvs_set_i32 :: "32 word \<Rightarrow> string \<Rightarrow> int \<Rightarrow> 'w \<Rightarrow> esp_err_t \<times> 'w"
  nvs_erase_key :: "32 word \<Rightarrow> string \<Rightarrow> 'w \<Rightarrow> esp_err_t \<times> 'w"
  nvs_erase_all :: "32 word \<Rightarrow> 'w \<Rightarrow> esp_err_t \<times> 'w"
  nvs_commit :: "32 word \<Rightarrow> 'w \<Rightarrow> esp_err_t \<times> 'w"
  nvs_close :: "32 word \<Rightarrow> 'w \<Rightarrow> 'w"
  i2s_channel_enable :: "nat \<Rightarrow> 'w \<Rightarrow> esp_err_t \<times> 'w"

text \<open>
  \<open>ESP_ERROR_CHECK\<close> aborts the firmware on any code other than \<open>ESP_OK\<close>; a function
  that can reach it returns \<open>Inl (Abort code)\<close> in that case. Log output is part of the
  result, one constructor per message of the source.
\<close>

datatype abort = Abort esp_err_t

datatype log_line =
    W_not_open_for_writing string
  | W_output_volume_too_small int
  | I_set_input_enable bool
  | I_set_output_enable bool
  | I_audio_codec_started

record settings =
  ns :: string
  nvs_handle :: "32 word"
  read_write :: bool
  dirty :: bool

text \<open>The constructor ignores the result code of \<open>nvs_open\<close>.\<close>

definition Settings :: "'w esp_idf \<Rightarrow> string \<Rightarrow> bool \<Rightarrow> 'w \<Rightarrow> settings \<times> 'w" where
  "Settings idf name rw w =
     (case nvs_open idf name (if rw then NVS_READWRITE else NVS_READONLY) w of
        (h, w') \<Rightarrow> (\<lparr>ns = name, nvs_handle = h, read_write = rw, dirty = False\<rparr>, w'))"

text \<open>The destructor \<open>~Settings\<close>.\<close>

definition Settings_destroy :: "'w esp_idf \<Rightarrow> settings \<Rightarrow> 'w \<Rightarrow> abort + 'w" where
  "Settings_destroy idf this w =
     (if nvs_handle this \<noteq> 0 then
        (if read_write this \<and> dirty this then
           (case nvs_commit idf (nvs_handle this) w of
              (rc, w') \<Rightarrow>
                if rc = ESP_OK then Inr (nvs_close idf (nvs_handle this) w')
                else Inl (Abort rc))
         else Inr (nvs_close idf (nvs_handle this) w))
      else Inr w)"

definition GetInt :: "'w esp_idf \<Rightarrow> string \<Rightarrow> int \<Rightarrow> settings \<Rightarrow> 'w \<Rightarrow> int" where
  "GetInt idf key default_value this w =
     (if nvs_handle this = 0 then default_value
      else (case nvs_get_i32 idf (nvs_handle this) key w of
              (rc, v) \<Rightarrow> if rc \<noteq> ESP_OK then default_value else v))"

definition SetString ::
  "'w esp_idf \<Rightarrow> string \<Rightarrow> string \<Rightarrow> settings \<Rightarrow> 'w \<Rightarrow>
   abort + settings \<times> 'w \<times> log_line list" where
  "SetString idf key val this w =
     (if read_write this then
        (case nvs_set_str idf (nvs_handle this) key val w of
           (rc, w') \<Rightarrow>
             if rc = ESP_OK then Inr (this\<lparr>dirty := True\<rparr>, w', []) else Inl (Abort rc))
      else Inr (this, w, [W_not_open_for_writing (ns this)]))"

definition SetInt ::
  "'w esp_idf \<Rightarrow> string \<Rightarrow> int \<Rightarrow> settings \<Rightarrow> 'w \<Rightarrow>
   abort + settings \<times> 'w \<times> log_line list" where
  "SetInt idf key val this w =
     (if read_write this then
        (case nvs_set_i32 idf (nvs_handle this) key val w of
           (rc, w') \<Rightarrow>
             if rc = ESP_OK then Inr (this\<lparr>dirty := True\<rparr>, w', []) else Inl (Abort rc))
      else Inr (this, w, [W_not_open_for_writing (ns this)]))"

definition EraseKey ::
  "'w esp_idf \<Rightarrow> string \<Rightarrow> settings \<Rightarrow> 'w \<Rightarrow> abort + settings \<times> 'w \<times> log_line list" where
  "EraseKey idf key this w =
     (if read_write this then
        (case nvs_erase_key idf (nvs_handle this) key w of
           (ret, w') \<Rightarrow>
             if ret \<noteq> ESP_ERR_NVS_NOT_FOUND then
               (if ret = ESP_OK then Inr (this, w', []) else Inl (Abort ret))
             else Inr (this, w', []))
      else Inr (this, w, [W_not_open_for_writing (ns this)]))"

definition EraseAll ::
  "'w esp_idf \<Rightarrow> settings \<Rightarrow> 'w \<Rightarrow> abort + settings \<times> 'w \<times> log_line list" where
  "EraseAll idf this w =
     (if read_write this then
        (case nvs_erase_all idf (nvs_handle this) w of
           (rc, w') \<Rightarrow> if rc = ESP_OK then Inr (this, w', []) else Inl (Abort rc))
      else Inr (this, w, [W_not_open_for_writing (ns this)]))"

section \<open>Audio codec base class (main/audio\_codecs/audio\_codec.cc)\<close>

record audio_codec =
  tx_handle :: nat
  rx_handle :: nat
  duplex :: bool
  input_reference :: bool
  input_enabled :: bool
  output_enabled :: bool
  input_sample_rate :: int
  output_sample_rate :: int
  input_channels :: int
  output_channels :: int
  output_volume :: int

text \<open>The member initialisers of audio\_codec.h.\<close>

definition AudioCodec :: audio_codec where
  "AudioCodec =
     \<lparr>tx_handle = 0, rx_handle = 0, duplex = False, input_reference = False,
      input_enabled = False, output_enabled = False, input_sample_rate = 0,
      output_sample_rate = 0, input_channels = 1, output_channels = 1, output_volume = 70\<rparr>"

text \<open>
  \<open>EnableInput\<close> and \<open>EnableOutput\<close> are virtual. These are the implementations of the base
  class; the overriders of the codec classes are declared in headers whose bodies are not
  among the sources, so \<open>Start\<close> takes the two methods it dispatches to as arguments, with
  the type that lets an overrider touch the hardware and fail.
\<close>

definition EnableInput ::
  "bool \<Rightarrow> audio_codec \<Rightarrow> 'w \<Rightarrow> abort + audio_codec \<times> 'w \<times> log_line list" where
  "EnableInput enable this w =
     (if enable = input_enabled this then Inr (this, w, [])
      else Inr (this\<lparr>input_enabled := enable\<rparr>, w, [I_set_input_enable enable]))"

definition EnableOutput ::
  "bool \<Rightarrow> audio_codec \<Rightarrow> 'w \<Rightarrow> abort + audio_codec \<times> 'w \<times> log_line list" where
  "EnableOutput enable this w =
     (if enable = output_enabled this then Inr (this, w, [])
      else Inr (this\<lparr>output_enabled := enable\<rparr>, w, [I_set_output_enable enable]))"

definition Start ::
  "'w esp_idf \<Rightarrow>
   (bool \<Rightarrow> audio_codec \<Rightarrow> 'w \<Rightarrow> abort + audio_codec \<times> 'w \<times> log_line list) \<Rightarrow>
   (bool \<Rightarrow> audio_codec \<Rightarrow> 'w \<Rightarrow> abort + audio_codec \<times> 'w \<times> log_line list) \<Rightarrow>
   audio_codec \<Rightarrow> 'w \<Rightarrow> abort + audio_codec \<times> 'w \<times> log_line list" where
  "Start idf enable_input enable_output this w =
     (case Settings idf ''audio'' False w of
        (settings, w1) \<Rightarrow>
          let this1 = this\<lparr>output_volume :=
                        GetInt idf ''output_volume'' (output_volume this) settings w1\<rparr>;
              (this2, log1) =
                (if output_volume this1 \<le> 0
                 then (this1\<lparr>output_volume := 10\<rparr>,
                       [W_output_volume_too_small (output_volume this1)])
                 else (this1, []))
          in (case i2s_channel_enable idf (tx_handle this2) w1 of
                (rc_tx, w2) \<Rightarrow>
                  if rc_tx \<noteq> ESP_OK then Inl (Abort rc_tx)
                  else
                    (case i2s_channel_enable idf (rx_handle this2) w2 of
                       (rc_rx, w3) \<Rightarrow>
                         if rc_rx \<noteq> ESP_OK then Inl (Abort rc_rx)
                         else
                           (case enable_input True this2 w3 of
                              Inl a \<Rightarrow> Inl a
                            | Inr (this3, w4, log2) \<Rightarrow>
                                (case enable_output True this3 w4 of
                                   Inl a \<Rightarrow> Inl a
                                 | Inr (this4, w5, log3) \<Rightarrow>
                                     (case Settings_destroy idf settings w5 of
                                        Inl a \<Rightarrow> Inl a
                                      | Inr w6 \<Rightarrow>
                                          Inr (this4, w6,
                                               log1 @ log2 @ log3 @
                                               [I_audio_codec_started])))))))"

text \<open>What the base-class methods satisfy: a successful call leaves \<open>output_volume_\<close> alone.\<close>

definition keeps_output_volume ::
  "(bool \<Rightarrow> audio_codec \<Rightarrow> 'w \<Rightarrow> abort + audio_codec \<times> 'w \<times> log_line list) \<Rightarrow> bool" where
  "keeps_output_volume method \<longleftrightarrow>
     (\<forall>enable this w this' w' lg.
        method enable this w = Inr (this', w', lg) \<longrightarrow> output_volume this' = output_volume this)"

text \<open>
  A small instance of the library interface, used to evaluate the model on concrete
  inputs: the integer and string entries of one namespace, and a count of commits.
\<close>

record flash =
  i32_entries :: "(string \<times> int) list"
  str_entries :: "(string \<times> string) list"
  commits :: nat

definition ram_idf :: "flash esp_idf" where
  "ram_idf =
     \<lparr>nvs_open = (\<lambda>name mode w. (1, w)),
      nvs_get_i32 = (\<lambda>h key w.
         case map_of (i32_entries w) key of
           None \<Rightarrow> (ESP_ERR_NVS_NOT_FOUND, 0)
         | Some v \<Rightarrow> (ESP_OK, v)),
      nvs_set_str = (\<lambda>h key v w. (ESP_OK, w\<lparr>str_entries := (key, v) # str_entries w\<rparr>)),
      nvs_set_i32 = (\<lambda>h key v w. (ESP_OK, w\<lparr>i32_entries := (key, v) # i32_entries w\<rparr>)),
      nvs_erase_key = (\<lambda>h key w.
         (ESP_OK, w\<lparr>i32_entries := filter (\<lambda>e. fst e \<noteq> key) (i32_entries w),
                     str_entries := filter (\<lambda>e. fst e \<noteq> key) (str_entries w)\<rparr>)),
      nvs_erase_all = (\<lambda>h w. (ESP_OK, w\<lparr>i32_entries := [], str_entries := []\<rparr>)),
      nvs_commit = (\<lambda>h w. (ESP_OK, w\<lparr>commits := Suc (commits w)\<rparr>)),
      nvs_close = (\<lambda>h w. w),
      i2s_channel_enable = (\<lambda>h w. (ESP_OK, w))\<rparr>"

definition muted_flash :: flash where
  "muted_flash = \<lparr>i32_entries = [(''output_volume'', 0)], str_entries = [], commits = 0\<rparr>"

definition audio_readonly :: settings where
  "audio_readonly = \<lparr>ns = ''audio'', nvs_handle = 1, read_write = False, dirty = False\<rparr>"

section \<open>Wire formats and the protocol layer (main/protocols/protocol.h)\<close>

text \<open>
  Of the protocol layer the sources hold the headers only: the packet and frame structs,
  and the fields and method declarations of \<open>Protocol\<close>, \<open>MqttProtocol\<close> and
  \<open>WebsocketProtocol\<close>. The structs are transcribed; the fields of the two packed frame
  structs carry a prefix, since they share names with those of the packet.
\<close>

record AudioStreamPacket =
  timestamp :: "32 word"
  payload :: "8 word list"

record BinaryProtocol2 =
  bp2_version :: "16 word"
  bp2_type :: "16 word"
  bp2_reserved :: "32 word"
  bp2_timestamp :: "32 word"
  bp2_payload_size :: "32 word"
  bp2_payload :: "8 word list"

record BinaryProtocol3 =
  bp3_type :: "8 word"
  bp3_reserved :: "8 word"
  bp3_payload_size :: "16 word"
  bp3_payload :: "8 word list"

text \<open>Modelled from the spec: the byte order of the header fields, which the spec leaves
  to negotiation (``little/big-endian as negotiated''); the code that writes the fields is
  in websocket\_protocol.cc, which is not among the sources. Both orders are covered.\<close>

datatype byte_order = BigEndian | LittleEndian

text \<open>Modelled from the spec: the bytes of a field in the negotiated order, given most
  significant byte first (serialisation code is missing from the sources).\<close>

definition in_order :: "byte_order \<Rightarrow> 8 word list \<Rightarrow> 8 word list" where
  "in_order bo bs = (case bo of BigEndian \<Rightarrow> bs | LittleEndian \<Rightarrow> rev bs)"

text \<open>Modelled from the spec: a \<open>u16\<close> header field as two bytes (serialisation code is
  missing from the sources).\<close>

definition put_u16 :: "byte_order \<Rightarrow> 16 word \<Rightarrow> 8 word list" where
  "put_u16 bo x = in_order bo [ucast (drop_bit 8 x), ucast x]"

text \<open>Modelled from the spec: a \<open>u32\<close> header field as four bytes (serialisation code is
  missing from the sources).\<close>

definition put_u32 :: "byte_order \<Rightarrow> 32 word \<Rightarrow> 8 word list" where
  "put_u32 bo x =
     in_order bo [ucast (drop_bit 24 x), ucast (drop_bit 16 x), ucast (drop_bit 8 x), ucast x]"

text \<open>Modelled from the spec: reading a \<open>u16\<close> field back from its two bytes (parsing code
  is missing from the sources).\<close>

definition get_u16 :: "byte_order \<Rightarrow> 8 word list \<Rightarrow> 16 word" where
  "get_u16 bo bs =
     (case in_order bo bs of
        [b1, b0] \<Rightarrow> push_bit 8 (ucast b1) OR ucast b0
      | _ \<Rightarrow> 0)"

text \<open>Modelled from the spec: reading a \<open>u32\<close> field back from its four bytes (parsing
  code is missing from the sources).\<close>

definition get_u32 :: "byte_order \<Rightarrow> 8 word list \<Rightarrow> 32 word" where
  "get_u32 bo bs =
     (case in_order bo bs of
        [b3, b2, b1, b0] \<Rightarrow>
          push_bit 24 (ucast b3) OR push_bit 16 (ucast b2) OR push_bit 8 (ucast b1) OR ucast b0
      | _ \<Rightarrow> 0)"

text \<open>Modelled from the spec: the full binary frame on the wire, ``version:u16, type:u16,
  reserved:u32, timestamp:u32, payload\_size:u32, payload:bytes --- fixed 16-byte header, no
  padding'', in the field order of the packed struct \<open>BinaryProtocol2\<close>. The encoder is in
  the missing websocket\_protocol.cc.\<close>

definition encode_BinaryProtocol2 :: "byte_order \<Rightarrow> BinaryProtocol2 \<Rightarrow> 8 word list" where
  "encode_BinaryProtocol2 bo f =
     put_u16 bo (bp2_version f) @ put_u16 bo (bp2_type f) @ put_u32 bo (bp2_reserved f) @
     put_u32 bo (bp2_timestamp f) @ put_u32 bo (bp2_payload_size f) @ bp2_payload f"

text \<open>Modelled from the spec: parsing a full binary frame (the parser is in the missing
  websocket\_protocol.cc). A buffer shorter than the header, or shorter than the header
  plus the announced payload, is rejected.\<close>

definition parse_BinaryProtocol2 :: "byte_order \<Rightarrow> 8 word list \<Rightarrow> BinaryProtocol2 option" where
  "parse_BinaryProtocol2 bo bytes =
     (if length bytes < 16 then None
      else
        let size = get_u32 bo (take 4 (drop 12 bytes))
        in if length bytes - 16 < unat size then None
           else Some \<lparr>bp2_version = get_u16 bo (take 2 bytes),
                      bp2_type = get_u16 bo (take 2 (drop 2 bytes)),
                      bp2_reserved = get_u32 bo (take 4 (drop 4 bytes)),
                      bp2_timestamp = get_u32 bo (take 4 (drop 8 bytes)),
                      bp2_payload_size = size,
                      bp2_payload = take (unat size) (drop 16 bytes)\<rparr>)"

text \<open>Modelled from the spec: \<open>max_payload\<close> is not given a value by the spec or the
  sources; it is taken as the largest length the \<open>u32\<close> field \<open>payload_size\<close> can
  carry.\<close>

definition max_payload :: nat where
  "max_payload = 2 ^ 32 - 1"

text \<open>Modelled from the spec: the frame of an audio packet, type 0 (``0=opus-audio'') and
  protocol version 2; the code that fills the header is missing from the sources.\<close>

definition to_BinaryProtocol2 :: "AudioStreamPacket \<Rightarrow> BinaryProtocol2" where
  "to_BinaryProtocol2 packet =
     \<lparr>bp2_version = 2, bp2_type = 0, bp2_reserved = 0, bp2_timestamp = timestamp packet,
      bp2_payload_size = of_nat (length (payload packet)), bp2_payload = payload packet\<rparr>"

text \<open>Modelled from the spec: the packet reconstructed from a parsed frame of type 0; a
  frame of another type is not audio. The receiving code is missing from the sources.\<close>

definition of_BinaryProtocol2 :: "BinaryProtocol2 \<Rightarrow> AudioStreamPacket option" where
  "of_BinaryProtocol2 f =
     (if bp2_type f = 0 then Some \<lparr>timestamp = bp2_timestamp f, payload = bp2_payload f\<rparr>
      else None)"

text \<open>Modelled from the spec: ``encoding an \<open>AudioStreamPacket\<close> into the full binary
  frame'' (encoder missing from the sources).\<close>

definition encode_audio_frame :: "byte_order \<Rightarrow> AudioStreamPacket \<Rightarrow> 8 word list" where
  "encode_audio_frame bo packet = encode_BinaryProtocol2 bo (to_BinaryProtocol2 packet)"

text \<open>Modelled from the spec: ``parsing it back'' (parser missing from the sources).\<close>

definition parse_audio_frame :: "byte_order \<Rightarrow> 8 word list \<Rightarrow> AudioStreamPacket option" where
  "parse_audio_frame bo bytes =
     (case parse_BinaryProtocol2 bo bytes of
        None \<Rightarrow> None
      | Some f \<Rightarrow> of_BinaryProtocol2 f)"

text \<open>Modelled from the spec: the compact frame of an audio packet, ``type:u8,
  reserved:u8, payload\_size:u16, payload:bytes --- 4-byte header'', in the field order of
  the packed struct \<open>BinaryProtocol3\<close> (encoder missing from the sources).\<close>

definition to_BinaryProtocol3 :: "AudioStreamPacket \<Rightarrow> BinaryProtocol3" where
  "to_BinaryProtocol3 packet =
     \<lparr>bp3_type = 0, bp3_reserved = 0, bp3_payload_size = of_nat (length (payload packet)),
      bp3_payload = payload packet\<rparr>"

text \<open>Modelled from the spec: the bytes of a compact frame (encoder missing from the
  sources).\<close>

definition encode_BinaryProtocol3 :: "byte_order \<Rightarrow> BinaryProtocol3 \<Rightarrow> 8 word list" where
  "encode_BinaryProtocol3 bo f =
     [bp3_type f, bp3_reserved f] @ put_u16 bo (bp3_payload_size f) @ bp3_payload f"

text \<open>Modelled from the spec: the two framing variants, ``a variant carrying
  version/type/timestamp/payload-length plus payload, or a compact variant with only
  type/length/payload'' (the code that selects one is missing from the sources).\<close>

datatype framing = FullFrame byte_order | CompactFrame byte_order

text \<open>Modelled from the spec: ``serializes packet using the active binary framing
  variant'' (the bodies of \<open>SendAudio\<close> are missing from the sources).\<close>

definition serialize :: "framing \<Rightarrow> AudioStreamPacket \<Rightarrow> 8 word list" where
  "serialize fmt packet =
     (case fmt of
        FullFrame bo \<Rightarrow> encode_audio_frame bo packet
      | CompactFrame bo \<Rightarrow> encode_BinaryProtocol3 bo (to_BinaryProtocol3 packet))"

text \<open>Modelled from the spec: the state of a protocol object, as far as the spec's
  account of the audio path needs it (the classes' method bodies are missing from the
  sources). The first four fields are those of \<open>Protocol\<close> in protocol.h, and
  \<open>local_sequence\<close> and \<open>remote_sequence\<close> those of \<open>MqttProtocol\<close> in mqtt\_protocol.h.
  \<open>audio_channel_opened\<close> is what \<open>IsAudioChannelOpened()\<close> answers, \<open>frame_format\<close> and
  \<open>encrypted\<close> name the transport variant, \<open>sent\<close> lists the frames handed to the
  transport, \<open>delivered\<close> the packets passed to the \<open>on_incoming_audio_\<close> callback and
  \<open>dropped\<close> counts the inbound frames discarded.\<close>

record protocol =
  server_sample_rate :: int
  server_frame_duration :: int
  error_occurred :: bool
  session_id :: string
  audio_channel_opened :: bool
  frame_format :: framing
  encrypted :: bool
  local_sequence :: "32 word"
  remote_sequence :: "32 word"
  sent :: "8 word list list"
  delivered :: "AudioStreamPacket list"
  dropped :: nat

text \<open>Modelled from the spec: \<open>SendAudio\<close>, whose bodies (mqtt\_protocol.cc,
  websocket\_protocol.cc) are missing from the sources: it ``fails (returns false) if the
  channel is not open; otherwise serializes packet using the active binary framing variant
  and, for the encrypted variant, encrypts the payload with the session key and a nonce
  derived from the local sequence counter, which is then incremented''. The cipher is a
  parameter, applied to the counter and the payload.\<close>

definition SendAudio ::
  "(32 word \<Rightarrow> 8 word list \<Rightarrow> 8 word list) \<Rightarrow> AudioStreamPacket \<Rightarrow> protocol \<Rightarrow>
   bool \<times> protocol" where
  "SendAudio encrypt packet this =
     (if \<not> audio_channel_opened this then (False, this)
      else if encrypted this then
        (True,
         this\<lparr>sent := sent this @
                 [serialize (frame_format this)
                    (packet\<lparr>payload := encrypt (local_sequence this) (payload packet)\<rparr>)],
               local_sequence := local_sequence this + 1\<rparr>)
      else (True, this\<lparr>sent := sent this @ [serialize (frame_format this) packet]\<rparr>))"

text \<open>Modelled from the spec: the handler of an inbound audio frame, whose body
  (mqtt\_protocol.cc) is missing from the sources: ``the layer validates the remote
  sequence counter is strictly greater than the last seen value (drop and log on
  replay/out-of-order; do not raise an error), decrypts if applicable, and invokes the
  audio-received callback with a reconstructed \<open>AudioStreamPacket\<close>''. A frame is its
  sequence number and the packet it carries.\<close>

definition OnIncomingFrame ::
  "(32 word \<Rightarrow> 8 word list \<Rightarrow> 8 word list) \<Rightarrow> 32 word \<times> AudioStreamPacket \<Rightarrow> protocol \<Rightarrow>
   protocol" where
  "OnIncomingFrame decrypt frame this =
     (case frame of
        (sequence, packet) \<Rightarrow>
          if remote_sequence this < sequence then
            this\<lparr>remote_sequence := sequence,
                 delivered := delivered this @
                   [if encrypted this
                    then packet\<lparr>payload := decrypt sequence (payload packet)\<rparr>
                    else packet]\<rparr>
          else this\<lparr>dropped := Suc (dropped this)\<rparr>)"

text \<open>Modelled from the spec: a stream of inbound frames, handled one by one in arrival
  order (receive loop missing from the sources).\<close>

fun receive_all ::
  "(32 word \<Rightarrow> 8 word list \<Rightarrow> 8 word list) \<Rightarrow> (32 word \<times> AudioStreamPacket) list \<Rightarrow>
   protocol \<Rightarrow> protocol" where
  "receive_all decrypt [] this = this"
| "receive_all decrypt (frame # frames) this =
     receive_all decrypt frames (OnIncomingFrame decrypt frame this)"

text \<open>Modelled from the spec: the sequence numbers the spec's rule lets through from a
  stream of arrivals, written down directly: a number passes when it is ``strictly greater
  than the last seen value'', and then becomes that value.\<close>

fun strictly_newer :: "32 word \<Rightarrow> 32 word list \<Rightarrow> 32 word list" where
  "strictly_newer last_seen [] = []"
| "strictly_newer last_seen (n # seqs) =
     (if last_seen < n then n # strictly_newer n seqs else strictly_newer last_seen seqs)"

text \<open>Modelled from the spec: a session as the hello handshake leaves it, ``sequence
  counters reset on (re)establishment''; the sample rate and frame duration are the member
  initialisers of protocol.h.\<close>

definition session :: "bool \<Rightarrow> framing \<Rightarrow> bool \<Rightarrow> protocol" where
  "session opened fmt enc =
     \<lparr>server_sample_rate = 24000, server_frame_duration = 60, error_occurred = False,
      session_id = [], audio_channel_opened = opened, frame_format = fmt, encrypted = enc,
      local_sequence = 0, remote_sequence = 0, sent = [], delivered = [], dropped = 0\<rparr>"

text \<open>Modelled from the spec: an inbound frame with remote sequence number \<open>n\<close>, as in
  the spec's arrival order 5, 6, 8, 7, 9; its timestamp repeats the number so that the
  packet delivered can be told apart.\<close>

definition numbered :: "32 word \<Rightarrow> 32 word \<times> AudioStreamPacket" where
  "numbered n = (n, \<lparr>timestamp = n, payload = []\<rparr>)"

subsection \<open>The hello handshake\<close>

text \<open>Modelled from the spec: the datagram connection parameters the server hello carries
  for the encrypted variant (``datagram endpoint/port and symmetric key'', with the nonce
  seed); mqtt\_protocol.h keeps them in \<open>udp_server_\<close>, \<open>udp_port_\<close>, \<open>aes_ctx_\<close> and
  \<open>aes_nonce_\<close>, and the code that fills them is in the missing mqtt\_protocol.cc.\<close>

record datagram_params =
  udp_server :: string
  udp_port :: int
  aes_key :: "8 word list"
  aes_nonce :: "8 word list"

text \<open>Modelled from the spec: the server hello control message, ``JSON with
  \<open>session_id\<close>, negotiated sample rate/frame duration, and (encrypted transport) datagram
  endpoint/port and symmetric key''; a field the JSON object lacks is \<open>None\<close>. The code
  that reads the message is missing from the sources.\<close>

record server_hello =
  hello_session_id :: "string option"
  hello_sample_rate :: "int option"
  hello_frame_duration :: "int option"
  hello_datagram :: "datagram_params option"

text \<open>Modelled from the spec: how the wait for the server hello ends, ``blocks (with
  timeout) on a condition signaled when the server hello control message arrives'': either
  the timeout window passes with no hello, or a hello arrives within it. The wait itself
  is in the missing websocket\_protocol.cc and mqtt\_protocol.cc; its outcome is an input
  of the model, and the length of the window is not represented.\<close>

datatype hello_wait = Hello_timeout | Hello_arrived server_hello

text \<open>Modelled from the spec: \<open>ParseServerHello\<close>, declared in both protocol headers with
  its body missing: it ``extracts \<open>session_id\<close>, negotiated sample rate/frame duration, and
  (encrypted variant) datagram connection parameters''. The result is \<open>None\<close> when it
  cannot.\<close>

definition ParseServerHello ::
  "bool \<Rightarrow> server_hello \<Rightarrow> (string \<times> int \<times> int \<times> datagram_params option) option" where
  "ParseServerHello enc hello =
     (case hello_session_id hello of
        None \<Rightarrow> None
      | Some sid \<Rightarrow>
          (case hello_sample_rate hello of
             None \<Rightarrow> None
           | Some rate \<Rightarrow>
               (case hello_frame_duration hello of
                  None \<Rightarrow> None
                | Some duration \<Rightarrow>
                    if enc then
                      (case hello_datagram hello of
                         None \<Rightarrow> None
                       | Some params \<Rightarrow> Some (sid, rate, duration, Some params))
                    else Some (sid, rate, duration, None))))"

text \<open>Modelled from the spec: a malformed server hello, one that lacks a field the spec
  lists for it (the datagram parameters only on the encrypted variant).\<close>

definition malformed :: "bool \<Rightarrow> server_hello \<Rightarrow> bool" where
  "malformed enc hello \<longleftrightarrow>
     hello_session_id hello = None \<or> hello_sample_rate hello = None \<or>
     hello_frame_duration hello = None \<or> (enc \<and> hello_datagram hello = None)"

text \<open>Modelled from the spec: what an open attempt does towards the outside: it sends the
  client hello, connects the datagram channel (encrypted variant) and signals
  channel-opened (the callbacks and transports are in the missing sources).\<close>

datatype channel_event =
    Client_hello_sent
  | Datagram_channel_connected datagram_params
  | Audio_channel_opened

text \<open>Modelled from the spec: \<open>OpenAudioChannel\<close>, declared in websocket\_protocol.h and
  mqtt\_protocol.h with its bodies missing: ``client sends hello, then blocks (with
  timeout) on a condition signaled when the server hello control message arrives;
  \<open>ParseServerHello\<close> extracts \<dots> and signals channel-opened only after this completes
  successfully. Timeout or malformed hello: \<open>OpenAudioChannel\<close> returns false; no partial
  state is left established''. On success the session is established with its ``sequence
  counters reset''. The result is the value returned, the protocol object afterwards and
  what the attempt did towards the outside.\<close>

definition OpenAudioChannel ::
  "hello_wait \<Rightarrow> protocol \<Rightarrow> bool \<times> protocol \<times> channel_event list" where
  "OpenAudioChannel outcome this =
     (case outcome of
        Hello_timeout \<Rightarrow> (False, this, [Client_hello_sent])
      | Hello_arrived hello \<Rightarrow>
          (case ParseServerHello (encrypted this) hello of
             None \<Rightarrow> (False, this, [Client_hello_sent])
           | Some (sid, rate, duration, datagram) \<Rightarrow>
               (True,
                this\<lparr>session_id := sid, server_sample_rate := rate,
                     server_frame_duration := duration, local_sequence := 0,
                     remote_sequence := 0, audio_channel_opened := True\<rparr>,
                [Client_hello_sent] @
                (case datagram of
                   None \<Rightarrow> []
                 | Some params \<Rightarrow> [Datagram_channel_connected params]) @
                [Audio_channel_opened])))"

text \<open>Two server hellos for evaluating the model: one without a session id, and a
  complete one for the unencrypted variant.\<close>

definition hello_without_session :: server_hello where
  "hello_without_session =
     \<lparr>hello_session_id = None, hello_sample_rate = Some 24000,
      hello_frame_duration = Some 60, hello_datagram = None\<rparr>"

definition hello_complete :: server_hello where
  "hello_complete =
     \<lparr>hello_session_id = Some ''s1'', hello_sample_rate = Some 16000,
      hello_frame_duration = Some 20, hello_datagram = None\<rparr>"

section \<open>Outbound audio queue (main/application.h)\<close>

definition OPUS_FRAME_DURATION_MS :: nat where
  "OPUS_FRAME_DURATION_MS = 60"

definition MAX_AUDIO_PACKETS_IN_QUEUE :: nat where
  "MAX_AUDIO_PACKETS_IN_QUEUE = 2400 div OPUS_FRAME_DURATION_MS"

text \<open>
  The two constants above are the macros of application.h. \<open>audio_send_queue_\<close> is a
  \<open>std::list<AudioStreamPacket>\<close>; the code that fills and empties it is in
  application.cc, which is not among the sources.
\<close>

text \<open>Modelled from the spec: the policy on a full queue, which the spec leaves open
  between its two alternatives (``either drop the incoming frame or the oldest queued
  frame''); application.cc is missing.\<close>

datatype drop_policy = DropIncoming | DropOldest

text \<open>Modelled from the spec: the producer side of \<open>audio_send_queue_\<close> (application.cc is
  missing): ``if the outbound queue is at capacity \<dots> either drop the incoming frame or
  the oldest queued frame --- the contract is: outbound backlog must never exceed
  capacity''.\<close>

definition push_audio_send_queue ::
  "drop_policy \<Rightarrow> AudioStreamPacket \<Rightarrow> AudioStreamPacket list \<Rightarrow> AudioStreamPacket list" where
  "push_audio_send_queue policy packet queue =
     (if length queue < MAX_AUDIO_PACKETS_IN_QUEUE then queue @ [packet]
      else (case policy of
              DropIncoming \<Rightarrow> queue
            | DropOldest \<Rightarrow> tl queue @ [packet]))"

text \<open>Modelled from the spec: the consumer side (application.cc is missing): ``a sender
  loop dequeues frames in order''; on an empty queue it has nothing to take.\<close>

definition pop_audio_send_queue :: "AudioStreamPacket list \<Rightarrow> AudioStreamPacket list" where
  "pop_audio_send_queue queue = (case queue of [] \<Rightarrow> [] | packet # rest \<Rightarrow> rest)"

text \<open>Modelled from the spec: what the two loops around the queue do to it, the capture
  loop pushing a frame and the sender loop taking one (application.cc is missing).\<close>

datatype queue_event = Produce AudioStreamPacket | Consume

text \<open>Modelled from the spec: any interleaving of the capture loop and the sender loop on
  the queue (both loops are in the missing application.cc).\<close>

fun audio_send_queue_after ::
  "drop_policy \<Rightarrow> queue_event list \<Rightarrow> AudioStreamPacket list \<Rightarrow> AudioStreamPacket list" where
  "audio_send_queue_after policy [] queue = queue"
| "audio_send_queue_after policy (Produce packet # es) queue =
     audio_send_queue_after policy es (push_audio_send_queue policy packet queue)"
| "audio_send_queue_after policy (Consume # es) queue =
     audio_send_queue_after policy es (pop_audio_send_queue queue)"

text \<open>An empty packet, for evaluating the model.\<close>

definition silence :: AudioStreamPacket where
  "silence = \<lparr>timestamp = 0, payload = []\<rparr>"

section \<open>Properties of the background task scheduler\<close>

subsection \<open>The invariant\<close>

lemma bg_inv_length:
  "bg_inv s \<Longrightarrow>
   length (scheduled s) =
   length (executed s) + length (not_yet_run (worker s)) + length (main_tasks s)"
  unfolding bg_inv_def by (metis length_append length_map add.assoc)

lemma bg_inv_BackgroundTask: "bg_inv BackgroundTask"
  by (simp add: bg_inv_def BackgroundTask_def)

lemma bg_inv_Schedule:
  assumes "bg_inv s"
  shows "bg_inv (Schedule cb f s)"
proof -
  note len = bg_inv_length [OF assms]
  show ?thesis
    using assms len unfolding bg_inv_def Schedule_def Let_def
    by (auto simp: nth_append)
qed

lemma bg_inv_step:
  assumes "bg_inv s"
  shows "bg_inv (BackgroundTaskLoop_step s)"
proof -
  note len = bg_inv_length [OF assms]
  show ?thesis
    using assms len unfolding bg_inv_def BackgroundTaskLoop_step_def
    by (auto simp: nth_append less_Suc_eq le_Suc_eq split: worker.splits list.splits)
qed

lemma bg_inv_run: "bg_inv s \<Longrightarrow> bg_inv (run es s)"
  by (induction es s rule: run.induct) (auto simp: bg_inv_Schedule bg_inv_step)

subsection \<open>The wait returns\<close>

lemma of_nat_word32_zero:
  assumes "n < 2 ^ 32" and "(of_nat n :: 32 word) = 0"
  shows "n = 0"
proof -
  have "unat (of_nat n :: 32 word) = n mod 2 ^ 32"
    by (simp add: unat_of_nat)
  with assms(2) have "n mod 2 ^ 32 = 0" by simp
  with assms(1) show "n = 0" by simp
qed

lemma work_left_step:
  "\<not> worker_blocked s \<Longrightarrow> work_left (BackgroundTaskLoop_step s) < work_left s"
  by (auto simp: work_left_def worker_blocked_def BackgroundTaskLoop_step_def
      split: worker.splits list.splits)

lemma pending_step: "length (pending (BackgroundTaskLoop_step s)) \<le> length (pending s)"
  by (auto simp: pending_def BackgroundTaskLoop_step_def split: worker.splits list.splits)

lemma scheduled_step: "scheduled (BackgroundTaskLoop_step s) = scheduled s"
  by (auto simp: BackgroundTaskLoop_step_def split: worker.splits list.splits)

lemma all_done_executed:
  assumes "bg_inv s" and "length (pending s) < 2 ^ 32" and "all_done s"
  shows "worker s = AtWait \<and> map fst (executed s) = map fst (scheduled s)"
proof -
  have "(of_nat (length (pending s)) :: 32 word) = 0"
    using assms by (auto simp: bg_inv_def pending_def all_done_def)
  then have "length (pending s) = 0"
    using assms(2) of_nat_word32_zero by blast
  then have "worker s = AtWait"
    by (cases "worker s") (auto simp: pending_def)
  then show ?thesis
    using assms by (simp add: bg_inv_def all_done_def)
qed

lemma busy_not_blocked:
  assumes "bg_inv s" and "\<not> all_done s"
  shows "\<not> worker_blocked s"
  using assms by (auto simp: bg_inv_def worker_blocked_def all_done_def)

lemma WaitForCompletion_returns:
  assumes "bg_inv s" and "length (pending s) < 2 ^ 32"
  shows "\<exists>s'. WaitForCompletion s = Some s' \<and> all_done s' \<and> worker s' = AtWait \<and>
           scheduled s' = scheduled s \<and> map fst (executed s') = map fst (scheduled s)"
  using assms
proof (induction "work_left s" arbitrary: s rule: less_induct)
  case less
  show ?case
  proof (cases "all_done s")
    case True
    then have "WaitForCompletion s = Some s"
      by (subst WaitForCompletion.simps) simp
    then show ?thesis
      using True all_done_executed [OF less.prems] by simp
  next
    case False
    then have nb: "\<not> worker_blocked s"
      using less.prems(1) busy_not_blocked by blast
    let ?t = "BackgroundTaskLoop_step s"
    have "\<exists>s'. WaitForCompletion ?t = Some s' \<and> all_done s' \<and> worker s' = AtWait \<and>
            scheduled s' = scheduled ?t \<and> map fst (executed s') = map fst (scheduled ?t)"
      using less.hyps [of ?t] work_left_step [OF nb] bg_inv_step [OF less.prems(1)]
        pending_step [of s] less.prems(2) by simp
    moreover have "WaitForCompletion s = WaitForCompletion ?t"
      using False nb by (subst WaitForCompletion.simps) simp
    ultimately show ?thesis
      by (simp add: scheduled_step)
  qed
qed

lemma prefix_of_append: "xs = ys @ zs \<Longrightarrow> ys = take (length ys) xs"
  by simp

lemma run_replicate_Schedule:
  "run (replicate n (Call_Schedule cb f)) s = ((Schedule cb f) ^^ n) s"
  by (induction n arbitrary: s) (simp_all add: funpow_swap1)

lemma thirty_queued_active: "active_tasks thirty_queued = 30"
  unfolding thirty_queued_def run_replicate_Schedule
  by (simp add: eval_nat_numeral Schedule_def BackgroundTask_def)

lemma thirty_queued_warnings: "warnings thirty_queued = []"
  unfolding thirty_queued_def run_replicate_Schedule
  by (simp add: eval_nat_numeral Schedule_def BackgroundTask_def)

lemma exceeds_after_increment:
  fixes a :: "32 word"
  assumes "unat a < 2 ^ 32 - 1"
  shows "30 < a + 1 \<longleftrightarrow> 30 \<le> a"
proof -
  have "unat (a + 1) = unat a + 1"
    using assms by (simp add: unat_word_ariths)
  then show ?thesis
    by (simp add: word_less_nat_alt word_le_nat_alt) linarith
qed

subsection \<open>Claims about the scheduler\<close>

text \<open>
  C1. Take any history of \<open>Schedule\<close> calls interleaved with worker progress, and call
  \<open>WaitForCompletion\<close> with nothing scheduled during the wait. Then the call returns, and
  in the state at the return the callbacks run are exactly the callbacks scheduled, each
  once and in the order of the calls; the counter is back to zero, so every wrapper has
  also done its decrement. The premise bounds the number of list nodes alive at the call
  by the range of the 32-bit counter, which the address space of the device enforces.
\<close>

theorem WaitForCompletion_all_executed_once:
  assumes "length (pending (run evs BackgroundTask)) < 2 ^ 32"
  shows "\<exists>s'. WaitForCompletion (run evs BackgroundTask) = Some s' \<and>
           map fst (executed s') = map fst (scheduled (run evs BackgroundTask)) \<and>
           scheduled s' = scheduled (run evs BackgroundTask) \<and>
           main_tasks s' = [] \<and> active_tasks s' = 0 \<and> worker s' = AtWait"
proof -
  have "bg_inv (run evs BackgroundTask)"
    by (rule bg_inv_run [OF bg_inv_BackgroundTask])
  from WaitForCompletion_returns [OF this assms]
  show ?thesis by (auto simp: all_done_def)
qed

theorem WaitForCompletion_all_executed_once_witness:
  "length (pending (run (take 5 burst) BackgroundTask)) < 2 ^ 32 \<and>
   map fst (scheduled (run (take 5 burst) BackgroundTask)) = [1, 2, 3] \<and>
   map fst (executed (run (take 5 burst) BackgroundTask)) = [1] \<and>
   (\<exists>s'. WaitForCompletion (run (take 5 burst) BackgroundTask) = Some s' \<and>
      map fst (executed s') = [1, 2, 3] \<and> active_tasks s' = 0)"
proof -
  have r: "run (take 5 burst) BackgroundTask =
      \<lparr>main_tasks = [3], active_tasks = 3, worker = AtCompletion 1 [2], warnings = [],
       batches = 1, scheduled = [(1, 0), (2, 0), (3, 1)], executed = [(1, 1)]\<rparr>"
    by (simp add: burst_def BackgroundTask_def Schedule_def BackgroundTaskLoop_step_def)
  have b: "length (pending (run (take 5 burst) BackgroundTask)) < 2 ^ 32"
    unfolding r by (simp add: pending_def)
  from WaitForCompletion_all_executed_once [OF b]
  obtain s' where "WaitForCompletion (run (take 5 burst) BackgroundTask) = Some s'"
    and "map fst (executed s') = map fst (scheduled (run (take 5 burst) BackgroundTask))"
    and "active_tasks s' = 0"
    by blast
  then have "\<exists>s'. WaitForCompletion (run (take 5 burst) BackgroundTask) = Some s' \<and>
      map fst (executed s') = [1, 2, 3] \<and> active_tasks s' = 0"
    unfolding r by simp
  with b show ?thesis
    unfolding r by simp
qed

text \<open>
  C5. In every history the callbacks run are an initial segment of the callbacks
  scheduled, so items execute strictly in enqueue order; and every callback runs in a batch
  whose number is greater than the number of batches drained when it was scheduled, so an
  item scheduled while batch \<open>b\<close> is executing runs in batch \<open>b + 1\<close> or later, never in
  batch \<open>b\<close>. The drain itself moves the entire queue into the worker's list, and
  \<open>Schedule\<close> never touches that list.
\<close>

theorem batch_drain_atomic_in_order:
  "map fst (executed (run evs BackgroundTask)) =
     take (length (executed (run evs BackgroundTask)))
       (map fst (scheduled (run evs BackgroundTask))) \<and>
   (\<forall>i < length (executed (run evs BackgroundTask)).
      snd (scheduled (run evs BackgroundTask) ! i) <
      snd (executed (run evs BackgroundTask) ! i)) \<and>
   (\<forall>s :: 'a background_task. worker s = AtWait \<longrightarrow>
      local_tasks (worker (BackgroundTaskLoop_step s)) = main_tasks s \<and>
      main_tasks (BackgroundTaskLoop_step s) = []) \<and>
   (\<forall>(s :: 'a background_task) cb f. worker (Schedule cb f s) = worker s)"
proof -
  let ?s = "run evs BackgroundTask"
  have inv: "bg_inv ?s"
    by (rule bg_inv_run [OF bg_inv_BackgroundTask])
  then have "map fst (scheduled ?s) =
      map fst (executed ?s) @ (not_yet_run (worker ?s) @ main_tasks ?s)"
    by (simp add: bg_inv_def)
  from prefix_of_append [OF this]
  have order: "map fst (executed ?s) = take (length (executed ?s)) (map fst (scheduled ?s))"
    by simp
  have later: "\<forall>i < length (executed ?s). snd (scheduled ?s ! i) < snd (executed ?s ! i)"
    using inv by (simp add: bg_inv_def)
  have drain: "\<forall>s :: 'a background_task. worker s = AtWait \<longrightarrow>
      local_tasks (worker (BackgroundTaskLoop_step s)) = main_tasks s \<and>
      main_tasks (BackgroundTaskLoop_step s) = []"
    by (auto simp: BackgroundTaskLoop_step_def split: list.splits)
  have keep: "\<forall>(s :: 'a background_task) cb f. worker (Schedule cb f s) = worker s"
    by (simp add: Schedule_def Let_def)
  from order later drain keep show ?thesis by blast
qed

theorem batch_drain_atomic_in_order_witness:
  "scheduled (run burst BackgroundTask) = [(1, 0), (2, 0), (3, 1)] \<and>
   executed (run burst BackgroundTask) = [(1, 1), (2, 1), (3, 2)] \<and>
   2 < length (executed (run burst BackgroundTask)) \<and>
   snd (scheduled (run burst BackgroundTask) ! 2) < snd (executed (run burst BackgroundTask) ! 2)"
proof -
  have r: "run burst BackgroundTask =
      \<lparr>main_tasks = [], active_tasks = 1, worker = AtCompletion 3 [], warnings = [],
       batches = 2, scheduled = [(1, 0), (2, 0), (3, 1)],
       executed = [(1, 1), (2, 1), (3, 2)]\<rparr>"
    by (simp add: burst_def BackgroundTask_def Schedule_def BackgroundTaskLoop_step_def)
  have len: "2 < length (executed (run burst BackgroundTask))"
    unfolding r by simp
  have "\<forall>i < length (executed (run burst BackgroundTask)).
      snd (scheduled (run burst BackgroundTask) ! i) <
      snd (executed (run burst BackgroundTask) ! i)"
    using batch_drain_atomic_in_order [of burst] by blast
  with len have "snd (scheduled (run burst BackgroundTask) ! 2) <
      snd (executed (run burst BackgroundTask) ! 2)"
    by blast
  with len show ?thesis
    unfolding r by simp
qed

text \<open>
  C7. \<open>Schedule\<close> logs a warning exactly when the active-task count, with the item being
  scheduled counted in, exceeds 30 and the free internal memory is low (below 10000
  bytes): the code tests \<open>active_tasks_ >= 30\<close> just before it increments the counter. With
  or without the warning the callback is appended to the queue and the counter is
  incremented. The premise says that the increment does not wrap the 32-bit counter.
\<close>

theorem Schedule_warning_nonfatal:
  assumes "unat (active_tasks s) < 2 ^ 32 - 1"
  shows "(warnings (Schedule cb free_size s) \<noteq> warnings s \<longleftrightarrow>
            30 < active_tasks (Schedule cb free_size s) \<and> sint free_size < 10000) \<and>
         main_tasks (Schedule cb free_size s) = main_tasks s @ [cb] \<and>
         active_tasks (Schedule cb free_size s) = active_tasks s + 1"
  using exceeds_after_increment [OF assms]
  by (simp add: Schedule_def Let_def)

theorem Schedule_warning_nonfatal_witness:
  "unat (active_tasks thirty_queued) < 2 ^ 32 - 1 \<and>
   warnings (Schedule 0 5000 thirty_queued) = [(30, 5000)] \<and>
   warnings (Schedule 0 50000 thirty_queued) = [] \<and>
   warnings (Schedule 0 5000 (BackgroundTask :: nat background_task)) = [] \<and>
   active_tasks (Schedule 0 5000 thirty_queued) = 31 \<and>
   length (main_tasks (Schedule 0 5000 thirty_queued)) = length (main_tasks thirty_queued) + 1"
proof -
  have room: "unat (active_tasks thirty_queued) < 2 ^ 32 - 1"
    by (simp add: thirty_queued_active)
  from Schedule_warning_nonfatal [OF room, of 0 5000]
    Schedule_warning_nonfatal [OF room, of 0 50000]
  show ?thesis
    using room
    by (simp add: Schedule_def thirty_queued_active thirty_queued_warnings BackgroundTask_def)
qed

section \<open>Properties of the settings and of the audio codec\<close>

lemma keeps_output_volume_EnableInput: "keeps_output_volume EnableInput"
  by (auto simp: keeps_output_volume_def EnableInput_def split: if_splits)

lemma keeps_output_volume_EnableOutput: "keeps_output_volume EnableOutput"
  by (auto simp: keeps_output_volume_def EnableOutput_def split: if_splits)

lemma keeps_output_volumeD:
  "keeps_output_volume method \<Longrightarrow> method enable this w = Inr (this', w', lg) \<Longrightarrow>
   output_volume this' = output_volume this"
  unfolding keeps_output_volume_def by blast

lemma Start_volume:
  assumes "Start idf enable_input enable_output this w = Inr (this', w', lg)"
    and "keeps_output_volume enable_input" and "keeps_output_volume enable_output"
  shows "output_volume this' =
         (let v = GetInt idf ''output_volume'' (output_volume this)
                    (fst (Settings idf ''audio'' False w)) (snd (Settings idf ''audio'' False w))
          in if v \<le> 0 then 10 else v)"
  using assms(1)
  by (auto simp: Start_def Let_def split: prod.splits if_splits sum.splits
      dest!: keeps_output_volumeD [OF assms(2)] keeps_output_volumeD [OF assms(3)])

text \<open>
  C9. On a handle that is not open for writing, \<open>SetString\<close>, \<open>SetInt\<close>, \<open>EraseKey\<close> and
  \<open>EraseAll\<close> return the handle and everything outside the program exactly as they found
  them, and log one warning; this holds whatever the storage library does. The destructor
  only closes the handle: its result does not depend on \<open>nvs_commit\<close>. A handle constructed
  with \<open>read_write = false\<close> is such a handle.
\<close>

theorem readonly_Settings_leave_store_unchanged:
  assumes "\<not> read_write this"
  shows "SetString idf key sval this w = Inr (this, w, [W_not_open_for_writing (ns this)]) \<and>
         SetInt idf key ival this w = Inr (this, w, [W_not_open_for_writing (ns this)]) \<and>
         EraseKey idf key this w = Inr (this, w, [W_not_open_for_writing (ns this)]) \<and>
         EraseAll idf this w = Inr (this, w, [W_not_open_for_writing (ns this)]) \<and>
         Settings_destroy idf this w =
           Inr (if nvs_handle this \<noteq> 0 then nvs_close idf (nvs_handle this) w else w) \<and>
         Settings_destroy (idf\<lparr>nvs_commit := commit\<rparr>) this w = Settings_destroy idf this w \<and>
         \<not> read_write (fst (Settings idf name False w))"
  using assms
  by (simp add: SetString_def SetInt_def EraseKey_def EraseAll_def Settings_destroy_def
      Settings_def split: prod.splits)

theorem readonly_Settings_leave_store_unchanged_witness:
  "Settings ram_idf ''audio'' False muted_flash = (audio_readonly, muted_flash) \<and>
   \<not> read_write audio_readonly \<and>
   SetInt ram_idf ''output_volume'' 50 audio_readonly muted_flash =
     Inr (audio_readonly, muted_flash, [W_not_open_for_writing ''audio'']) \<and>
   EraseAll ram_idf audio_readonly muted_flash =
     Inr (audio_readonly, muted_flash, [W_not_open_for_writing ''audio'']) \<and>
   Settings_destroy ram_idf audio_readonly muted_flash = Inr muted_flash \<and>
   SetInt ram_idf ''output_volume'' 50 (audio_readonly\<lparr>read_write := True\<rparr>) muted_flash \<noteq>
     Inr (audio_readonly\<lparr>read_write := True\<rparr>, muted_flash, [])"
proof -
  have ro: "\<not> read_write audio_readonly"
    by (simp add: audio_readonly_def)
  have ctor: "Settings ram_idf ''audio'' False muted_flash = (audio_readonly, muted_flash)"
    by (simp add: Settings_def ram_idf_def audio_readonly_def)
  have rw: "SetInt ram_idf ''output_volume'' 50 (audio_readonly\<lparr>read_write := True\<rparr>)
      muted_flash \<noteq> Inr (audio_readonly\<lparr>read_write := True\<rparr>, muted_flash, [])"
    by (simp add: SetInt_def ram_idf_def audio_readonly_def ESP_OK_def)
  from readonly_Settings_leave_store_unchanged
    [OF ro, of ram_idf "''output_volume''" "[]" muted_flash 50 "nvs_commit ram_idf" "''audio''"]
  show ?thesis
    using ro ctor rw by (simp add: audio_readonly_def ram_idf_def)
qed

text \<open>
  C10. If \<open>Start\<close> returns (no \<open>ESP_ERROR_CHECK\<close> aborted it), the output volume is
  strictly positive. If the namespace opened and holds an \<open>output_volume\<close> entry \<open>v\<close>, the
  volume is 10 when \<open>v \<le> 0\<close> and \<open>v\<close> itself otherwise. The two virtual methods \<open>Start\<close>
  calls are assumed to leave \<open>output_volume_\<close> alone, as those of the base class do.
\<close>

theorem Start_output_volume_positive:
  assumes "Start idf enable_input enable_output this w = Inr (this', w', lg)"
    and "keeps_output_volume enable_input" and "keeps_output_volume enable_output"
  shows "0 < output_volume this' \<and>
         (\<forall>h w1 v. nvs_open idf ''audio'' NVS_READONLY w = (h, w1) \<and> h \<noteq> 0 \<and>
              nvs_get_i32 idf h ''output_volume'' w1 = (ESP_OK, v) \<longrightarrow>
              output_volume this' = (if v \<le> 0 then 10 else v))"
proof -
  note vol = Start_volume [OF assms]
  have pos: "0 < output_volume this'"
    unfolding vol by (simp add: Let_def)
  have "output_volume this' = (if v \<le> 0 then 10 else v)"
    if "nvs_open idf ''audio'' NVS_READONLY w = (h, w1)" and "h \<noteq> 0"
      and "nvs_get_i32 idf h ''output_volume'' w1 = (ESP_OK, v)" for h w1 v
    unfolding vol using that by (simp add: Settings_def GetInt_def Let_def)
  with pos show ?thesis by blast
qed

theorem Start_output_volume_positive_witness:
  "Start ram_idf EnableInput EnableOutput AudioCodec muted_flash =
     Inr (AudioCodec\<lparr>input_enabled := True, output_enabled := True, output_volume := 10\<rparr>,
          muted_flash,
          [W_output_volume_too_small 0, I_set_input_enable True, I_set_output_enable True,
           I_audio_codec_started]) \<and>
   keeps_output_volume (EnableInput :: bool \<Rightarrow> audio_codec \<Rightarrow> flash \<Rightarrow> _) \<and>
   keeps_output_volume (EnableOutput :: bool \<Rightarrow> audio_codec \<Rightarrow> flash \<Rightarrow> _) \<and>
   0 < output_volume (AudioCodec\<lparr>input_enabled := True, output_enabled := True,
         output_volume := 10\<rparr>)"
proof -
  have st: "Start ram_idf EnableInput EnableOutput AudioCodec muted_flash =
     Inr (AudioCodec\<lparr>input_enabled := True, output_enabled := True, output_volume := 10\<rparr>,
          muted_flash,
          [W_output_volume_too_small 0, I_set_input_enable True, I_set_output_enable True,
           I_audio_codec_started])"
    by (simp add: Start_def Settings_def GetInt_def EnableInput_def EnableOutput_def Let_def
        ram_idf_def AudioCodec_def muted_flash_def Settings_destroy_def ESP_OK_def)
  from Start_output_volume_positive
    [OF st keeps_output_volume_EnableInput keeps_output_volume_EnableOutput]
  show ?thesis
    using st keeps_output_volume_EnableInput keeps_output_volume_EnableOutput by blast
qed

section \<open>Properties of the wire format and the protocol layer\<close>

lemma get_put_u16: "get_u16 bo (put_u16 bo x) = x"
proof -
  have "push_bit 8 (ucast (ucast (drop_bit 8 x) :: 8 word)) OR ucast (ucast x :: 8 word) = x"
    by (rule bit_word_eqI) (auto simp: bit_simps)
  then show ?thesis
    by (cases bo) (simp_all add: get_u16_def put_u16_def in_order_def)
qed

lemma get_put_u32: "get_u32 bo (put_u32 bo x) = x"
proof -
  have "push_bit 24 (ucast (ucast (drop_bit 24 x) :: 8 word)) OR
        push_bit 16 (ucast (ucast (drop_bit 16 x) :: 8 word)) OR
        push_bit 8 (ucast (ucast (drop_bit 8 x) :: 8 word)) OR ucast (ucast x :: 8 word) = x"
  proof (rule bit_word_eqI)
    fix n :: nat
    assume n: "n < LENGTH(32)"
    consider "n < 8" | "8 \<le> n" "n < 16" | "16 \<le> n" "n < 24" | "24 \<le> n"
      by linarith
    then show "bit (push_bit 24 (ucast (ucast (drop_bit 24 x) :: 8 word)) OR
        push_bit 16 (ucast (ucast (drop_bit 16 x) :: 8 word)) OR
        push_bit 8 (ucast (ucast (drop_bit 8 x) :: 8 word)) OR
        ucast (ucast x :: 8 word) :: 32 word) n = bit x n"
      using n by cases (auto simp: bit_simps)
  qed
  then show ?thesis
    by (cases bo) (simp_all add: get_u32_def put_u32_def in_order_def)
qed

lemma length_put_u16: "length (put_u16 bo x) = 2"
  by (cases bo) (simp_all add: put_u16_def in_order_def)

lemma length_put_u32: "length (put_u32 bo x) = 4"
  by (cases bo) (simp_all add: put_u32_def in_order_def)

lemma parse_encode_BinaryProtocol2:
  assumes "unat (bp2_payload_size f) = length (bp2_payload f)"
  shows "parse_BinaryProtocol2 bo (encode_BinaryProtocol2 bo f) = Some f"
  using assms
  by (simp add: parse_BinaryProtocol2_def encode_BinaryProtocol2_def Let_def
      length_put_u16 length_put_u32 get_put_u16 get_put_u32)

text \<open>
  C6. For every timestamp, every payload of at most \<open>max_payload\<close> bytes and either byte
  order, parsing the encoded full frame gives back the packet; the frame is the 16-byte
  header followed by the payload.
\<close>

theorem audio_frame_round_trip:
  assumes "length (payload packet) \<le> max_payload"
  shows "parse_audio_frame bo (encode_audio_frame bo packet) = Some packet \<and>
         length (encode_audio_frame bo packet) = 16 + length (payload packet)"
proof -
  have "unat (of_nat (length (payload packet)) :: 32 word) = length (payload packet)"
    using assms by (simp add: max_payload_def unat_of_nat)
  then have "parse_BinaryProtocol2 bo (encode_BinaryProtocol2 bo (to_BinaryProtocol2 packet)) =
      Some (to_BinaryProtocol2 packet)"
    by (intro parse_encode_BinaryProtocol2) (simp add: to_BinaryProtocol2_def)
  then show ?thesis
    by (simp add: parse_audio_frame_def encode_audio_frame_def of_BinaryProtocol2_def
        to_BinaryProtocol2_def encode_BinaryProtocol2_def length_put_u16 length_put_u32)
qed

theorem audio_frame_round_trip_witness:
  "length (payload \<lparr>timestamp = 0x01020304, payload = [7, 8, 9]\<rparr>) \<le> max_payload \<and>
   encode_audio_frame BigEndian \<lparr>timestamp = 0x01020304, payload = [7, 8, 9]\<rparr> =
     [0, 2, 0, 0, 0, 0, 0, 0, 1, 2, 3, 4, 0, 0, 0, 3, 7, 8, 9] \<and>
   parse_audio_frame BigEndian [0, 2, 0, 0, 0, 0, 0, 0, 1, 2, 3, 4, 0, 0, 0, 3, 7, 8, 9] =
     Some \<lparr>timestamp = 0x01020304, payload = [7, 8, 9]\<rparr>"
proof -
  have len: "length (payload \<lparr>timestamp = 0x01020304, payload = [7, 8, 9]\<rparr>) \<le> max_payload"
    by (simp add: max_payload_def)
  have enc: "encode_audio_frame BigEndian \<lparr>timestamp = 0x01020304, payload = [7, 8, 9]\<rparr> =
     [0, 2, 0, 0, 0, 0, 0, 0, 1, 2, 3, 4, 0, 0, 0, 3, 7, 8, 9]"
    by (simp add: encode_audio_frame_def to_BinaryProtocol2_def encode_BinaryProtocol2_def
        put_u16_def put_u32_def in_order_def drop_bit_eq_div)
  from audio_frame_round_trip [OF len, of BigEndian]
  show ?thesis
    using len enc by simp
qed

text \<open>
  C8. When the audio channel is not open, \<open>SendAudio\<close> returns false and the protocol
  object is unchanged: no frame has been handed to the transport and neither sequence
  counter has moved.
\<close>

theorem SendAudio_closed_channel:
  assumes "\<not> audio_channel_opened this"
  shows "fst (SendAudio encrypt packet this) = False \<and>
         sent (snd (SendAudio encrypt packet this)) = sent this \<and>
         local_sequence (snd (SendAudio encrypt packet this)) = local_sequence this \<and>
         remote_sequence (snd (SendAudio encrypt packet this)) = remote_sequence this \<and>
         snd (SendAudio encrypt packet this) = this"
  using assms by (simp add: SendAudio_def)

theorem SendAudio_closed_channel_witness:
  "\<not> audio_channel_opened (session False (FullFrame BigEndian) True) \<and>
   SendAudio (\<lambda>n bs. rev bs) silence (session False (FullFrame BigEndian) True) =
     (False, session False (FullFrame BigEndian) True) \<and>
   local_sequence (snd (SendAudio (\<lambda>n bs. rev bs) silence
     (session True (FullFrame BigEndian) True))) = 1 \<and>
   length (sent (snd (SendAudio (\<lambda>n bs. rev bs) silence
     (session True (FullFrame BigEndian) True)))) = 1"
proof -
  have closed: "\<not> audio_channel_opened (session False (FullFrame BigEndian) True)"
    by (simp add: session_def)
  from SendAudio_closed_channel [OF closed, of "\<lambda>n bs. rev bs" silence]
  have "SendAudio (\<lambda>n bs. rev bs) silence (session False (FullFrame BigEndian) True) =
     (False, session False (FullFrame BigEndian) True)"
    by (simp add: prod_eq_iff)
  with closed show ?thesis
    by (simp add: SendAudio_def session_def)
qed

lemma receive_all_numbered:
  "map timestamp (delivered (receive_all decrypt (map numbered seqs) this)) =
     map timestamp (delivered this) @ strictly_newer (remote_sequence this) seqs \<and>
   error_occurred (receive_all decrypt (map numbered seqs) this) = error_occurred this \<and>
   audio_channel_opened (receive_all decrypt (map numbered seqs) this) =
     audio_channel_opened this \<and>
   length (delivered (receive_all decrypt (map numbered seqs) this)) +
     dropped (receive_all decrypt (map numbered seqs) this) =
     length (delivered this) + dropped this + length seqs"
proof (induction seqs arbitrary: this)
  case Nil
  then show ?case by simp
next
  case (Cons n seqs)
  show ?case
    using Cons.IH [of "OnIncomingFrame decrypt (numbered n) this"]
    by (simp add: OnIncomingFrame_def numbered_def)
qed

lemma strictly_newer_increasing:
  "sorted_wrt (<) (strictly_newer l seqs) \<and> (\<forall>n \<in> set (strictly_newer l seqs). l < n)"
proof (induction seqs arbitrary: l)
  case Nil
  then show ?case by simp
next
  case (Cons n seqs)
  show ?case
    using Cons.IH [of n] Cons.IH [of l] by (auto intro: less_trans)
qed

text \<open>
  C3. An inbound frame is passed to the audio callback exactly when its sequence number is
  strictly greater than \<open>remote_sequence_\<close>; a frame that fails the check changes neither
  the packets delivered, nor the last-seen number, nor the error flag, nor the state of the
  channel. For every stream of arrivals on a fresh session the frames delivered are those
  the rule lets through, in strictly increasing order, every frame is either delivered or
  counted as dropped, and no error is raised. The arrival order 5, 6, 8, 7, 9 delivers 5,
  6, 8 and 9 and drops one frame, the 7.
\<close>

theorem inbound_sequence_validation:
  "(length (delivered (OnIncomingFrame decrypt (sequence, packet) this)) =
      Suc (length (delivered this)) \<longleftrightarrow> remote_sequence this < sequence) \<and>
   (\<not> remote_sequence this < sequence \<longrightarrow>
      delivered (OnIncomingFrame decrypt (sequence, packet) this) = delivered this \<and>
      remote_sequence (OnIncomingFrame decrypt (sequence, packet) this) = remote_sequence this \<and>
      error_occurred (OnIncomingFrame decrypt (sequence, packet) this) = error_occurred this \<and>
      audio_channel_opened (OnIncomingFrame decrypt (sequence, packet) this) =
        audio_channel_opened this) \<and>
   map timestamp
     (delivered (receive_all decrypt (map numbered seqs) (session True fmt enc))) =
     strictly_newer 0 seqs \<and>
   sorted_wrt (<) (map timestamp
     (delivered (receive_all decrypt (map numbered seqs) (session True fmt enc)))) \<and>
   length (delivered (receive_all decrypt (map numbered seqs) (session True fmt enc))) +
     dropped (receive_all decrypt (map numbered seqs) (session True fmt enc)) = length seqs \<and>
   \<not> error_occurred (receive_all decrypt (map numbered seqs) (session True fmt enc)) \<and>
   map timestamp
     (delivered (receive_all decrypt (map numbered [5, 6, 8, 7, 9]) (session True fmt enc))) =
     [5, 6, 8, 9] \<and>
   dropped (receive_all decrypt (map numbered [5, 6, 8, 7, 9]) (session True fmt enc)) = 1"
proof -
  let ?fresh = "session True fmt enc"
  have single: "length (delivered (OnIncomingFrame decrypt (sequence, packet) this)) =
      Suc (length (delivered this)) \<longleftrightarrow> remote_sequence this < sequence"
    by (simp add: OnIncomingFrame_def)
  have rejected: "\<not> remote_sequence this < sequence \<longrightarrow>
      delivered (OnIncomingFrame decrypt (sequence, packet) this) = delivered this \<and>
      remote_sequence (OnIncomingFrame decrypt (sequence, packet) this) = remote_sequence this \<and>
      error_occurred (OnIncomingFrame decrypt (sequence, packet) this) = error_occurred this \<and>
      audio_channel_opened (OnIncomingFrame decrypt (sequence, packet) this) =
        audio_channel_opened this"
    by (simp add: OnIncomingFrame_def)
  note stream = receive_all_numbered [of decrypt seqs ?fresh]
  have passed: "map timestamp (delivered (receive_all decrypt (map numbered seqs) ?fresh)) =
      strictly_newer 0 seqs"
    using stream by (simp add: session_def)
  have increasing: "sorted_wrt (<)
      (map timestamp (delivered (receive_all decrypt (map numbered seqs) ?fresh)))"
    unfolding passed using strictly_newer_increasing [of 0 seqs] by blast
  have counted: "length (delivered (receive_all decrypt (map numbered seqs) ?fresh)) +
      dropped (receive_all decrypt (map numbered seqs) ?fresh) = length seqs"
    using stream by (simp add: session_def)
  have quiet: "\<not> error_occurred (receive_all decrypt (map numbered seqs) ?fresh)"
    using stream by (simp add: session_def)
  have example: "map timestamp
      (delivered (receive_all decrypt (map numbered [5, 6, 8, 7, 9]) ?fresh)) = [5, 6, 8, 9] \<and>
      dropped (receive_all decrypt (map numbered [5, 6, 8, 7, 9]) ?fresh) = 1"
    by (simp add: OnIncomingFrame_def session_def numbered_def)
  from single rejected passed increasing counted quiet example show ?thesis
    by blast
qed

theorem inbound_sequence_validation_witness:
  "remote_sequence (receive_all (\<lambda>n bs. bs) (map numbered [5, 6, 8])
     (session True (CompactFrame BigEndian) True)) = 8 \<and>
   \<not> (8 :: 32 word) < 7 \<and>
   delivered (OnIncomingFrame (\<lambda>n bs. bs) (numbered 7)
     (receive_all (\<lambda>n bs. bs) (map numbered [5, 6, 8])
        (session True (CompactFrame BigEndian) True))) =
   delivered (receive_all (\<lambda>n bs. bs) (map numbered [5, 6, 8])
     (session True (CompactFrame BigEndian) True)) \<and>
   map timestamp (delivered (receive_all (\<lambda>n bs. bs) (map numbered [5, 6, 8, 7, 9])
     (session True (CompactFrame BigEndian) True))) = [5, 6, 8, 9] \<and>
   strictly_newer 0 [5, 6, 8, 7, 9] = [5, 6, 8, 9]"
proof -
  let ?s = "receive_all (\<lambda>n bs. bs) (map numbered [5, 6, 8])
     (session True (CompactFrame BigEndian) True)"
  have seen: "remote_sequence ?s = 8"
    by (simp add: OnIncomingFrame_def session_def numbered_def)
  have old: "\<not> remote_sequence ?s < 7"
    unfolding seen by simp
  from inbound_sequence_validation
    [where decrypt = "\<lambda>n bs. bs" and sequence = 7
       and packet = "\<lparr>timestamp = 7, payload = []\<rparr>" and this = ?s
       and fmt = "CompactFrame BigEndian" and enc = True and seqs = "[5, 6, 8, 7, 9]"]
  show ?thesis
    using seen old by (simp add: numbered_def)
qed

lemma ParseServerHello_None: "ParseServerHello enc hello = None \<longleftrightarrow> malformed enc hello"
  by (auto simp: ParseServerHello_def malformed_def split: option.splits)

text \<open>
  C4. If the wait for the server hello times out, or the hello that arrives is malformed,
  \<open>OpenAudioChannel\<close> returns false, the protocol object is exactly as it was before the
  call (session id, negotiated format, sequence counters and the closed channel), and
  nothing but the client hello has gone out: no datagram channel is connected and
  channel-opened is not signalled. The call returns in both cases; how long the timeout
  window lasts is outside the model.
\<close>

theorem OpenAudioChannel_timeout_or_malformed:
  assumes "outcome = Hello_timeout \<or>
           (\<exists>hello. outcome = Hello_arrived hello \<and> malformed (encrypted this) hello)"
  shows "fst (OpenAudioChannel outcome this) = False \<and>
         fst (snd (OpenAudioChannel outcome this)) = this \<and>
         snd (snd (OpenAudioChannel outcome this)) = [Client_hello_sent] \<and>
         Audio_channel_opened \<notin> set (snd (snd (OpenAudioChannel outcome this)))"
  using assms
  by (auto simp: OpenAudioChannel_def ParseServerHello_None [symmetric])

theorem OpenAudioChannel_timeout_or_malformed_witness:
  "malformed (encrypted (session False (FullFrame BigEndian) False)) hello_without_session \<and>
   OpenAudioChannel Hello_timeout (session False (FullFrame BigEndian) False) =
     (False, session False (FullFrame BigEndian) False, [Client_hello_sent]) \<and>
   OpenAudioChannel (Hello_arrived hello_without_session)
       (session False (FullFrame BigEndian) False) =
     (False, session False (FullFrame BigEndian) False, [Client_hello_sent]) \<and>
   OpenAudioChannel (Hello_arrived hello_complete) (session False (FullFrame BigEndian) False) =
     (True,
      (session True (FullFrame BigEndian) False)
        \<lparr>session_id := ''s1'', server_sample_rate := 16000, server_frame_duration := 20\<rparr>,
      [Client_hello_sent, Audio_channel_opened])"
proof -
  let ?closed = "session False (FullFrame BigEndian) False"
  have bad: "malformed (encrypted ?closed) hello_without_session"
    by (simp add: malformed_def hello_without_session_def)
  have late: "OpenAudioChannel Hello_timeout ?closed = (False, ?closed, [Client_hello_sent])"
    using OpenAudioChannel_timeout_or_malformed [of Hello_timeout ?closed]
    by (simp add: prod_eq_iff)
  have broken: "OpenAudioChannel (Hello_arrived hello_without_session) ?closed =
      (False, ?closed, [Client_hello_sent])"
    using OpenAudioChannel_timeout_or_malformed
      [of "Hello_arrived hello_without_session" ?closed] bad
    by (simp add: prod_eq_iff)
  have good: "OpenAudioChannel (Hello_arrived hello_complete) ?closed =
      (True,
       (session True (FullFrame BigEndian) False)
         \<lparr>session_id := ''s1'', server_sample_rate := 16000, server_frame_duration := 20\<rparr>,
       [Client_hello_sent, Audio_channel_opened])"
    by (simp add: OpenAudioChannel_def ParseServerHello_def hello_complete_def session_def)
  from bad late broken good show ?thesis
    by blast
qed

section \<open>Properties of the outbound audio queue\<close>

lemma MAX_AUDIO_PACKETS_IN_QUEUE_value: "MAX_AUDIO_PACKETS_IN_QUEUE = 40"
  by (simp add: MAX_AUDIO_PACKETS_IN_QUEUE_def OPUS_FRAME_DURATION_MS_def)

lemma length_push_audio_send_queue:
  "length queue \<le> MAX_AUDIO_PACKETS_IN_QUEUE \<Longrightarrow>
   length (push_audio_send_queue policy packet queue) =
   min (Suc (length queue)) MAX_AUDIO_PACKETS_IN_QUEUE"
  by (cases policy)
    (auto simp: push_audio_send_queue_def MAX_AUDIO_PACKETS_IN_QUEUE_value)

lemma length_pop_audio_send_queue: "length (pop_audio_send_queue queue) \<le> length queue"
  by (simp add: pop_audio_send_queue_def split: list.splits)

lemma audio_send_queue_bounded:
  "length queue \<le> MAX_AUDIO_PACKETS_IN_QUEUE \<Longrightarrow>
   length (audio_send_queue_after policy es queue) \<le> MAX_AUDIO_PACKETS_IN_QUEUE"
proof (induction policy es queue rule: audio_send_queue_after.induct)
  case (1 policy queue)
  then show ?case by simp
next
  case (2 policy packet es queue)
  then show ?case by (simp add: length_push_audio_send_queue)
next
  case (3 policy es queue)
  have "length (pop_audio_send_queue queue) \<le> MAX_AUDIO_PACKETS_IN_QUEUE"
    using length_pop_audio_send_queue [of queue] "3.prems" by linarith
  then show ?case using "3.IH" by simp
qed

lemma stalled_consumer_length:
  "length queue \<le> MAX_AUDIO_PACKETS_IN_QUEUE \<Longrightarrow>
   length (audio_send_queue_after policy (map Produce packets) queue) =
   min (length queue + length packets) MAX_AUDIO_PACKETS_IN_QUEUE"
proof (induction packets arbitrary: queue)
  case Nil
  then show ?case by simp
next
  case (Cons p ps)
  have "length (push_audio_send_queue policy p queue) \<le> MAX_AUDIO_PACKETS_IN_QUEUE"
    using Cons.prems by (simp add: length_push_audio_send_queue)
  from Cons.IH [OF this] show ?case
    using Cons.prems by (simp add: length_push_audio_send_queue)
qed

text \<open>
  C2. The capacity is 40 packets, which is 2400 ms at 60 ms a frame. Under either drop
  policy and for every interleaving of producer and consumer, a queue within the capacity
  stays within it; and 100 frames pushed into the empty queue with no consumer step leave
  exactly 40.
\<close>

theorem audio_send_queue_capacity:
  "MAX_AUDIO_PACKETS_IN_QUEUE = 40 \<and>
   MAX_AUDIO_PACKETS_IN_QUEUE * OPUS_FRAME_DURATION_MS = 2400 \<and>
   (length queue \<le> MAX_AUDIO_PACKETS_IN_QUEUE \<longrightarrow>
      length (audio_send_queue_after policy es queue) \<le> 40) \<and>
   (length packets = 100 \<longrightarrow>
      length (audio_send_queue_after policy (map Produce packets) []) = 40)"
  using audio_send_queue_bounded [of queue policy es]
    stalled_consumer_length [of "[]" policy packets]
  by (simp add: MAX_AUDIO_PACKETS_IN_QUEUE_value OPUS_FRAME_DURATION_MS_def)

theorem audio_send_queue_capacity_witness:
  "length ([] :: AudioStreamPacket list) \<le> MAX_AUDIO_PACKETS_IN_QUEUE \<and>
   length (replicate 100 silence) = 100 \<and>
   length (audio_send_queue_after DropOldest (map Produce (replicate 100 silence)) []) = 40 \<and>
   length (audio_send_queue_after DropIncoming
     (map Produce (replicate 100 silence) @ [Consume, Produce silence]) []) \<le> 40"
  using audio_send_queue_capacity [of "[]" DropOldest "[]" "replicate 100 silence"]
    audio_send_queue_capacity [of "[]" DropIncoming
      "map Produce (replicate 100 silence) @ [Consume, Produce silence]" "[]"]
  by simp

end
